theory Spec2Isabelle
  imports Main
begin

section \<open>Strings and numbers of the source language\<close>

text \<open>
  The engine (\<^verbatim>\<open>pdf-tools.js\<close>) works on JavaScript strings and numbers. A page-range
  expression is an ASCII string (a \<^typ>\<open>char list\<close> here). Numbers are IEEE doubles in
  the source; the model uses \<^typ>\<open>int\<close>, which agrees with the source on every integer
  of magnitude below \<open>2 ^ 53\<close>, far above the page count of any document. The value
  \<^verbatim>\<open>NaN\<close> of \<^verbatim>\<open>parseInt\<close> is \<^term>\<open>None\<close>; every comparison with it is false.
\<close>

definition isWhiteSpace :: "char \<Rightarrow> bool" where
  "isWhiteSpace c =
     (c = CHR 0x09 \<or> c = CHR 0x0A \<or> c = CHR 0x0B \<or> c = CHR 0x0C \<or> c = CHR 0x0D \<or> c = CHR '' '')"

text \<open>\<^verbatim>\<open>String.prototype.trim\<close>: white space is removed at both ends.\<close>

definition trim :: "string \<Rightarrow> string" where
  "trim s = rev (dropWhile isWhiteSpace (rev (dropWhile isWhiteSpace s)))"

text \<open>
  \<^verbatim>\<open>String.prototype.split\<close> with a separator of one character: the pieces between the
  separators, empty pieces included; a string without the separator is its only piece.
\<close>

fun split_str :: "char \<Rightarrow> string \<Rightarrow> string list" where
  "split_str sep [] = [[]]"
| "split_str sep (c # cs) =
     (if c = sep then [] # split_str sep cs
      else (case split_str sep cs of
              [] \<Rightarrow> [[c]]
            | piece # pieces \<Rightarrow> (c # piece) # pieces))"

text \<open>The value of a character as a digit; 36 stands for "no digit in any radix".\<close>

definition digitVal :: "char \<Rightarrow> nat" where
  "digitVal c =
     (let n = (of_char c :: nat) in
      if 48 \<le> n \<and> n \<le> 57 then n - 48
      else if 97 \<le> n \<and> n \<le> 122 then n - 87
      else if 65 \<le> n \<and> n \<le> 90 then n - 55
      else 36)"

definition isRadixDigit :: "nat \<Rightarrow> char \<Rightarrow> bool" where
  "isRadixDigit R c = (digitVal c < R)"

text \<open>
  \<^verbatim>\<open>parseInt(string)\<close> without a radix (ECMAScript 19.2.5): leading white space is
  skipped, a sign is read, a prefix \<^verbatim>\<open>0x\<close> or \<^verbatim>\<open>0X\<close> selects radix 16, then the longest
  run of digits is read and what follows it is ignored. No digit at all gives \<^verbatim>\<open>NaN\<close>.
\<close>

definition parseInt :: "string \<Rightarrow> int option" where
  "parseInt inputString =
     (let S = dropWhile isWhiteSpace inputString;
          sign = (if S \<noteq> [] \<and> hd S = CHR ''-'' then - 1 else (1 :: int));
          S1 = (if S \<noteq> [] \<and> (hd S = CHR ''+'' \<or> hd S = CHR ''-'') then tl S else S);
          hex = (take 2 S1 = ''0x'' \<or> take 2 S1 = ''0X'');
          R = (if hex then 16 else 10);
          S2 = (if hex then drop 2 S1 else S1);
          Z = takeWhile (isRadixDigit R) S2
      in if Z = [] then None
         else Some (sign * int (foldl (\<lambda>a c. a * R + digitVal c) 0 Z)))"

text \<open>
  A number in a template literal: the decimal digits of an integer, with a minus sign
  when it is negative.
\<close>

fun showNat :: "nat \<Rightarrow> string" where
  "showNat n =
     (if n < 10 then [char_of (48 + n)]
      else showNat (n div 10) @ [char_of (48 + n mod 10)])"

declare showNat.simps [simp del]

definition showInt :: "int \<Rightarrow> string" where
  "showInt i = (if i < 0 then CHR ''-'' # showNat (nat (- i)) else showNat (nat i))"

section \<open>Page ranges\<close>

text \<open>
  The loop \<^verbatim>\<open>for (let i = start; i <= end; i++)\<close> of \<^verbatim>\<open>parsePageRange\<close>: a page number
  \<open>i\<close> inside the document appends the index \<open>i - 1\<close>, any other is skipped.
\<close>

function range_loop :: "int \<Rightarrow> int \<Rightarrow> int \<Rightarrow> int list \<Rightarrow> int list" where
  "range_loop i e totalPages pages =
     (if i \<le> e
      then range_loop (i + 1) e totalPages
             (if i \<ge> 1 \<and> i \<le> totalPages then pages @ [i - 1] else pages)
      else pages)"
  by pat_completeness auto
termination
  by (relation "measure (\<lambda>(i, e, t, p). nat (e + 1 - i))") auto

declare range_loop.simps [simp del]

text \<open>
  The body of the loop over the comma-separated parts. A part with a hyphen is split at
  its hyphens and the first two pieces are parsed as start and end; with \<^verbatim>\<open>NaN\<close> on either
  side the loop does not run. Any other part is one page number.
\<close>

definition parsePart :: "int \<Rightarrow> int list \<Rightarrow> string \<Rightarrow> int list" where
  "parsePart totalPages pages part =
     (if CHR ''-'' \<in> set part then
        (case map (\<lambda>s. parseInt (trim s)) (split_str CHR ''-'' part) of
           Some start # Some e # _ \<Rightarrow> range_loop start e totalPages pages
         | _ \<Rightarrow> pages)
      else
        (case parseInt (trim part) of
           Some pageNum \<Rightarrow>
             if pageNum \<ge> 1 \<and> pageNum \<le> totalPages then pages @ [pageNum - 1] else pages
         | None \<Rightarrow> pages))"

definition parsePageRange :: "string \<Rightarrow> int \<Rightarrow> int list" where
  "parsePageRange range_str totalPages =
     foldl (parsePart totalPages) [] (split_str CHR '','' range_str)"

section \<open>Documents, storage and failures\<close>

text \<open>
  A page is opaque to the engine: it is only copied. A document handle
  (\<^verbatim>\<open>PDFDocument\<close>) is its page sequence and the entries of its information dictionary.
  Storage maps a path to the document stored there; \<^verbatim>\<open>existsSync\<close> asks whether the path
  is mapped, and \<^verbatim>\<open>writeFileSync\<close> maps it. The instants that \<^verbatim>\<open>new Date()\<close> reads in the
  course of one call are taken as one, the argument \<open>now\<close>.
\<close>

datatype page = Page nat | BlankPage

record document =
  pageList :: "page list"
  Title :: "string option"
  Author :: "string option"
  Subject :: "string option"
  Keywords :: "string list option"
  Creator :: "string option"
  Producer :: "string option"
  CreationDate :: "nat option"
  ModDate :: "nat option"

type_synonym storage = "string \<rightharpoonup> document"

text \<open>
  Every \<^verbatim>\<open>throw new Error(...)\<close> of the engine and of the request handler, with the
  message it carries; \<open>CodecFailure\<close> is a fault raised below the engine.
\<close>

datatype error =
    FileNotFound string
  | NoFilesProvided
  | InvalidPageNumber int
  | MissingArguments
  | UnknownTool string
  | CodecFailure string

fun message :: "error \<Rightarrow> string" where
  "message (FileNotFound filePath) = ''File not found: '' @ filePath"
| "message NoFilesProvided = ''No PDF files provided for merging''"
| "message (InvalidPageNumber pageNum) = ''Invalid page number: '' @ showInt pageNum"
| "message MissingArguments = ''Missing arguments for tool call''"
| "message (UnknownTool name) = ''Unknown tool: '' @ name"
| "message (CodecFailure m) = m"

subsection \<open>The codec\<close>

text \<open>
  The codec is the library \<^verbatim>\<open>pdf-lib\<close>, which the engine calls with its default options.
  With them \<^verbatim>\<open>PDFDocument.create()\<close> and \<^verbatim>\<open>PDFDocument.load(bytes)\<close> refresh the
  information dictionary of the handle they return (\<^verbatim>\<open>updateMetadata\<close>): the producer
  and the modification date are overwritten, the creator and the creation date are
  filled in when the document has none. \<^verbatim>\<open>save()\<close> gives a document without pages one
  blank page (\<^verbatim>\<open>addDefaultPage\<close>) before it serialises it, and the handle keeps that page.
  Apart from this a stored file is the document that was saved, and loading gives it back.
\<close>

definition emptyDocument :: document where
  "emptyDocument =
     \<lparr>pageList = [], Title = None, Author = None, Subject = None, Keywords = None,
      Creator = None, Producer = None, CreationDate = None, ModDate = None\<rparr>"

definition pdfLib :: string where
  "pdfLib = ''pdf-lib (https://github.com/Hopding/pdf-lib)''"

definition updateInfoDict :: "nat \<Rightarrow> document \<Rightarrow> document" where
  "updateInfoDict now pdf =
     pdf\<lparr>Creator := (case Creator pdf of None \<Rightarrow> Some pdfLib | Some c \<Rightarrow> Some c),
         Producer := Some pdfLib,
         CreationDate := (case CreationDate pdf of None \<Rightarrow> Some now | Some d \<Rightarrow> Some d),
         ModDate := Some now\<rparr>"

definition create :: "nat \<Rightarrow> document" where
  "create now = updateInfoDict now emptyDocument"

definition load :: "nat \<Rightarrow> document \<Rightarrow> document" where
  "load now stored = updateInfoDict now stored"

definition getPageCount :: "document \<Rightarrow> nat" where
  "getPageCount pdf = length (pageList pdf)"

text \<open>\<^verbatim>\<open>copyPages(src, indices)\<close>: the pages at the 0-based indices, in the order given; an
  index outside the source is a fault of the codec.\<close>

definition copyPages :: "document \<Rightarrow> int list \<Rightarrow> error + page list" where
  "copyPages src indices =
     (if list_all (\<lambda>i. 0 \<le> i \<and> i < int (length (pageList src))) indices
      then Inr (map (\<lambda>i. pageList src ! nat i) indices)
      else Inl (CodecFailure ''page index out of range''))"

definition addPages :: "document \<Rightarrow> page list \<Rightarrow> document" where
  "addPages pdf copiedPages = pdf\<lparr>pageList := pageList pdf @ copiedPages\<rparr>"

definition save :: "document \<Rightarrow> document" where
  "save pdf = (if getPageCount pdf = 0 then addPages pdf [BlankPage] else pdf)"

record file_result =
  res_success :: bool
  res_path :: string
  res_pages :: nat

record path_result =
  upd_success :: bool
  upd_path :: string

record files_result =
  ext_success :: bool
  ext_files :: "string list"

section \<open>The engine: merge, split, metadata update, page extraction\<close>

text \<open>
  The loop of \<^verbatim>\<open>mergePDFs\<close> over the source paths, in list order: each source is loaded
  and all its pages are appended to the merged document.
\<close>

fun merge_loop :: "storage \<Rightarrow> nat \<Rightarrow> string list \<Rightarrow> document \<Rightarrow> error + document" where
  "merge_loop fs now [] mergedPdf = Inr mergedPdf"
| "merge_loop fs now (filePath # rest) mergedPdf =
     (case fs filePath of
        None \<Rightarrow> Inl (FileNotFound filePath)
      | Some pdfBytes \<Rightarrow>
          (case copyPages (load now pdfBytes)
                  (map int [0 ..< length (pageList (load now pdfBytes))]) of
             Inl err \<Rightarrow> Inl err
           | Inr copiedPages \<Rightarrow> merge_loop fs now rest (addPages mergedPdf copiedPages)))"

text \<open>
  In \<^verbatim>\<open>mergePDFs\<close> and \<^verbatim>\<open>splitPDF\<close> the page count of the result is read after
  \<^verbatim>\<open>save()\<close>, and the file written is the saved document.
\<close>

definition mergePDFs ::
  "storage \<Rightarrow> string list \<Rightarrow> string \<Rightarrow> nat \<Rightarrow> (error + file_result) \<times> storage" where
  "mergePDFs fs filePaths outputPath now =
     (if length filePaths = 0 then (Inl NoFilesProvided, fs)
      else
        (case merge_loop fs now filePaths (create now) of
           Inl err \<Rightarrow> (Inl err, fs)
         | Inr merged \<Rightarrow>
             (let mergedPdf = save (merged\<lparr>Creator := Some ''PDF Utilities MCP'',
                                            Producer := Some ''pdf-lib'',
                                            ModDate := Some now\<rparr>)
              in (Inr \<lparr>res_success = True, res_path = outputPath,
                       res_pages = getPageCount mergedPdf\<rparr>,
                  fs(outputPath \<mapsto> mergedPdf)))))"

definition splitPDF ::
  "storage \<Rightarrow> string \<Rightarrow> string \<Rightarrow> string \<Rightarrow> nat \<Rightarrow> (error + file_result) \<times> storage" where
  "splitPDF fs filePath pageRange outputPath now =
     (case fs filePath of
        None \<Rightarrow> (Inl (FileNotFound filePath), fs)
      | Some pdfBytes \<Rightarrow>
          (case copyPages (load now pdfBytes)
                  (parsePageRange pageRange (int (getPageCount (load now pdfBytes)))) of
             Inl err \<Rightarrow> (Inl err, fs)
           | Inr copiedPages \<Rightarrow>
               (let newPdf = save ((addPages (create now) copiedPages)
                                     \<lparr>Creator := Some ''PDF Utilities MCP'',
                                      Producer := Some ''pdf-lib'',
                                      CreationDate := Some now\<rparr>)
                in (Inr \<lparr>res_success = True, res_path = outputPath,
                         res_pages = getPageCount newPdf\<rparr>,
                    fs(outputPath \<mapsto> newPdf)))))"

text \<open>
  The updates record of \<^verbatim>\<open>updatePDFMetadata\<close>: each field is optional. The guard
  \<^verbatim>\<open>if (metadata.title)\<close> tests the value for truthiness: an absent field
  (\<^verbatim>\<open>undefined\<close>) and the empty string are both falsy.
\<close>

record metadata_updates =
  u_title :: "string option"
  u_author :: "string option"
  u_subject :: "string option"
  u_keywords :: "string option"

definition truthy :: "string option \<Rightarrow> bool" where
  "truthy v = (case v of None \<Rightarrow> False | Some s \<Rightarrow> s \<noteq> [])"

definition updatePDFMetadata ::
  "storage \<Rightarrow> string \<Rightarrow> metadata_updates \<Rightarrow> string option \<Rightarrow> nat
     \<Rightarrow> (error + path_result) \<times> storage" where
  "updatePDFMetadata fs filePath metadata outputPath now =
     (case fs filePath of
        None \<Rightarrow> (Inl (FileNotFound filePath), fs)
      | Some pdfBytes \<Rightarrow>
          (let pdfDoc = load now pdfBytes;
               d1 = (if truthy (u_title metadata) then pdfDoc\<lparr>Title := u_title metadata\<rparr> else pdfDoc);
               d2 = (if truthy (u_author metadata) then d1\<lparr>Author := u_author metadata\<rparr> else d1);
               d3 = (if truthy (u_subject metadata) then d2\<lparr>Subject := u_subject metadata\<rparr> else d2);
               d4 = (case u_keywords metadata of
                       None \<Rightarrow> d3
                     | Some k \<Rightarrow> if k \<noteq> [] then d3\<lparr>Keywords := Some [k]\<rparr> else d3);
               d5 = save (d4\<lparr>ModDate := Some now\<rparr>);
               savePath = (case outputPath of
                             None \<Rightarrow> filePath
                           | Some p \<Rightarrow> if p \<noteq> [] then p else filePath)
           in (Inr \<lparr>upd_success = True, upd_path = savePath\<rparr>, fs(savePath \<mapsto> d5))))"

text \<open>
  The loop of \<^verbatim>\<open>extractPages\<close>: each page number is checked when its turn comes, and
  the file of a page is written before the next number is looked at.
\<close>

fun extract_loop ::
  "document \<Rightarrow> nat \<Rightarrow> string \<Rightarrow> string \<Rightarrow> int list \<Rightarrow> string list \<Rightarrow> storage
     \<Rightarrow> (error + string list) \<times> storage" where
  "extract_loop pdfDoc now outputDir prefix [] extractedFiles fs = (Inr extractedFiles, fs)"
| "extract_loop pdfDoc now outputDir prefix (pageNum # rest) extractedFiles fs =
     (if pageNum < 1 \<or> pageNum > int (getPageCount pdfDoc)
      then (Inl (InvalidPageNumber pageNum), fs)
      else
        (case copyPages pdfDoc [pageNum - 1] of
           Inl err \<Rightarrow> (Inl err, fs)
         | Inr copied \<Rightarrow>
             (let newPdf = save (addPages (create now) (take 1 copied));
                  outputPath = outputDir @ ''/'' @ prefix @ ''_'' @ showInt pageNum @ ''.pdf''
              in extract_loop pdfDoc now outputDir prefix rest
                   (extractedFiles @ [outputPath]) (fs(outputPath \<mapsto> newPdf)))))"

definition extractPages ::
  "storage \<Rightarrow> string \<Rightarrow> int list \<Rightarrow> string \<Rightarrow> string option \<Rightarrow> nat
     \<Rightarrow> (error + files_result) \<times> storage" where
  "extractPages fs filePath pages outputDir prefix_opt now =
     (case fs filePath of
        None \<Rightarrow> (Inl (FileNotFound filePath), fs)
      | Some pdfBytes \<Rightarrow>
          (let prefix = (case prefix_opt of None \<Rightarrow> ''page'' | Some p \<Rightarrow> p)
           in (case extract_loop (load now pdfBytes) now outputDir prefix pages [] fs of
                 (Inl err, fs') \<Rightarrow> (Inl err, fs')
               | (Inr extractedFiles, fs') \<Rightarrow>
                   (Inr \<lparr>ext_success = True, ext_files = extractedFiles\<rparr>, fs'))))"

section \<open>The request handler\<close>

text \<open>
  The handler of \<^verbatim>\<open>CallToolRequestSchema\<close> in \<^verbatim>\<open>index.js\<close>. The argument record is a
  JSON object, absent as a whole (\<^verbatim>\<open>undefined\<close>) or mapping field names to values; a
  field that the record does not hold reads as \<^verbatim>\<open>undefined\<close>.
\<close>

datatype jv =
    JUndefined
  | JNull
  | JBool bool
  | JNum int
  | JStr string
  | JArr "jv list"
  | JObj "(string \<times> jv) list"

record tool_call =
  params_name :: string
  params_arguments :: "(string \<rightharpoonup> jv) option"

definition field :: "(string \<rightharpoonup> jv) \<Rightarrow> string \<Rightarrow> jv" where
  "field args k = (case args k of None \<Rightarrow> JUndefined | Some v \<Rightarrow> v)"

text \<open>A call of a method of the engine, with the values the handler passes to it.\<close>

datatype engine_call =
    ReadPDF jv jv
  | GetPDFInfo jv
  | CreatePDF jv jv jv
  | MergePDFs jv jv
  | SplitPDF jv jv jv
  | UpdatePDFMetadata jv jv jv
  | ExtractPages jv jv jv jv

text \<open>
  The \<^verbatim>\<open>try\<close> block up to the point where the engine is entered: the check of
  \<^verbatim>\<open>args\<close>, then the \<^verbatim>\<open>switch\<close> on the name. \<open>Inr\<close> is the call that is made, \<open>Inl\<close>
  the error thrown without any call.
\<close>

definition route :: "tool_call \<Rightarrow> error + engine_call" where
  "route params =
     (case params_arguments params of
        None \<Rightarrow> Inl MissingArguments
      | Some args \<Rightarrow>
          (let name = params_name params in
           if name = ''read_pdf'' then
             Inr (ReadPDF (field args ''filePath'') (field args ''pageRange''))
           else if name = ''get_pdf_info'' then
             Inr (GetPDFInfo (field args ''filePath''))
           else if name = ''create_pdf'' then
             Inr (CreatePDF (field args ''content'') (field args ''outputPath'')
                    (field args ''options''))
           else if name = ''merge_pdfs'' then
             Inr (MergePDFs (field args ''filePaths'') (field args ''outputPath''))
           else if name = ''split_pdf'' then
             Inr (SplitPDF (field args ''filePath'') (field args ''pageRange'')
                    (field args ''outputPath''))
           else if name = ''update_pdf_metadata'' then
             Inr (UpdatePDFMetadata (field args ''filePath'') (field args ''metadata'')
                    (field args ''outputPath''))
           else if name = ''extract_pages'' then
             Inr (ExtractPages (field args ''filePath'') (field args ''pages'')
                    (field args ''outputDir'') (field args ''prefix''))
           else Inl (UnknownTool name)))"

text \<open>
  The response: a list of content items and the flag \<^verbatim>\<open>isError\<close> (absent on success,
  \<open>False\<close> here). The text of an item is kept as the value that \<^verbatim>\<open>JSON.stringify\<close>
  serialises.
\<close>

record content_item =
  item_type :: string
  item_text :: jv

record response =
  content :: "content_item list"
  isError :: bool

definition success_response :: "jv \<Rightarrow> response" where
  "success_response result =
     \<lparr>content = [\<lparr>item_type = ''text'', item_text = result\<rparr>], isError = False\<rparr>"

definition failure_response :: "string \<Rightarrow> response" where
  "failure_response errorMessage =
     \<lparr>content = [\<lparr>item_type = ''text'',
                  item_text = JObj [(''error'', JStr errorMessage), (''success'', JBool False)]\<rparr>],
      isError = True\<rparr>"

text \<open>
  The body of the \<^verbatim>\<open>try\<close> block, which may throw, and the handler with its \<^verbatim>\<open>catch\<close>.
  The engine is a parameter: given a call and the state of the world it returns a value
  or throws, and leaves a new state.
\<close>

definition try_body ::
  "(engine_call \<Rightarrow> 'st \<Rightarrow> (error + jv) \<times> 'st) \<Rightarrow> tool_call \<Rightarrow> 'st
     \<Rightarrow> (error + response) \<times> 'st" where
  "try_body engine params st =
     (case route params of
        Inl err \<Rightarrow> (Inl err, st)
      | Inr call \<Rightarrow>
          (case engine call st of
             (Inl err, st') \<Rightarrow> (Inl err, st')
           | (Inr result, st') \<Rightarrow> (Inr (success_response result), st')))"

definition dispatch ::
  "(engine_call \<Rightarrow> 'st \<Rightarrow> (error + jv) \<times> 'st) \<Rightarrow> tool_call \<Rightarrow> 'st \<Rightarrow> response \<times> 'st" where
  "dispatch engine params st =
     (case try_body engine params st of
        (Inr resp, st') \<Rightarrow> (resp, st')
      | (Inl err, st') \<Rightarrow> (failure_response (message err), st'))"



section \<open>The grammar of page-range expressions, as the specification words it\<close>

text \<open>
  A token is a decimal integer or two of them joined by a hyphen, white space around the
  numbers being ignored; an expression is a list of tokens separated by commas. A valid
  token names pages of the document only, and the start of a range is not after its end.
  \<open>tokenPages\<close> is the sequence of 1-based page numbers a token denotes.
\<close>

definition isDecDigit :: "char \<Rightarrow> bool" where
  "isDecDigit c = (48 \<le> (of_char c :: nat) \<and> (of_char c :: nat) \<le> 57)"

definition isDecimal :: "string \<Rightarrow> bool" where
  "isDecimal s = (s \<noteq> [] \<and> list_all isDecDigit s)"

definition decValue :: "string \<Rightarrow> nat" where
  "decValue s = foldl (\<lambda>a c. a * 10 + (of_char c - 48)) 0 s"

definition validToken :: "int \<Rightarrow> string \<Rightarrow> bool" where
  "validToken totalPages tok =
     (case split_str CHR ''-'' tok of
        [a] \<Rightarrow> isDecimal (trim a) \<and> 1 \<le> decValue (trim a) \<and> int (decValue (trim a)) \<le> totalPages
      | [a, b] \<Rightarrow>
          isDecimal (trim a) \<and> isDecimal (trim b) \<and> 1 \<le> decValue (trim a) \<and>
          decValue (trim a) \<le> decValue (trim b) \<and> int (decValue (trim b)) \<le> totalPages
      | _ \<Rightarrow> False)"

definition validExpression :: "int \<Rightarrow> string \<Rightarrow> bool" where
  "validExpression totalPages expr = list_all (validToken totalPages) (split_str CHR '','' expr)"

definition tokenPages :: "string \<Rightarrow> int list" where
  "tokenPages tok =
     (case split_str CHR ''-'' tok of
        [a] \<Rightarrow> [int (decValue (trim a))]
      | [a, b] \<Rightarrow> [int (decValue (trim a)) .. int (decValue (trim b))]
      | _ \<Rightarrow> [])"

definition expressionPages :: "string \<Rightarrow> int list" where
  "expressionPages expr = concat (map tokenPages (split_str CHR '','' expr))"

section \<open>Sample documents\<close>

text \<open>A document of \<open>n\<close> distinct pages and no metadata, for concrete runs of the engine.\<close>

definition doc_with_pages :: "nat \<Rightarrow> document" where
  "doc_with_pages n = emptyDocument\<lparr>pageList := map Page [0 ..< n]\<rparr>"

section \<open>Properties of the page-range resolver\<close>

subsection \<open>The loops as list functions\<close>

lemma range_loop_eq:
  "range_loop i e t ps = ps @ map (\<lambda>j. j - 1) (filter (\<lambda>j. 1 \<le> j \<and> j \<le> t) [i..e])"
proof (induction i e t ps rule: range_loop.induct)
  case (1 i e t ps)
  show ?case
  proof (cases "i \<le> e")
    case True
    then have u: "[i..e] = i # [i + 1..e]" by (simp add: upto_rec1)
    from True 1 show ?thesis
      by (subst range_loop.simps) (simp add: u)
  next
    case False
    then show ?thesis by (subst range_loop.simps) simp
  qed
qed

lemma parsePart_acc: "parsePart t ps part = ps @ parsePart t [] part"
  by (simp add: parsePart_def range_loop_eq [of _ _ _ ps] range_loop_eq [of _ _ _ "[]"]
      split: list.splits option.splits)

lemma foldl_parsePart:
  "foldl (parsePart t) ps parts = ps @ concat (map (parsePart t []) parts)"
proof (induction parts arbitrary: ps)
  case Nil
  then show ?case by simp
next
  case (Cons p parts)
  have "foldl (parsePart t) ps (p # parts) = foldl (parsePart t) (parsePart t ps p) parts"
    by simp
  also have "\<dots> = parsePart t ps p @ concat (map (parsePart t []) parts)"
    by (rule Cons.IH)
  also have "\<dots> = (ps @ parsePart t [] p) @ concat (map (parsePart t []) parts)"
    by (simp only: parsePart_acc [of t ps p])
  finally show ?case by simp
qed

lemma parsePageRange_concat:
  "parsePageRange r t = concat (map (parsePart t []) (split_str CHR '','' r))"
  by (simp add: parsePageRange_def foldl_parsePart)

lemma split_str_not_Nil: "split_str c s \<noteq> []"
  by (induction s) (auto split: list.splits)

lemma split_str_notin: "c \<notin> set s \<Longrightarrow> split_str c s = [s]"
  by (induction s) auto

lemma split_str_append: "c \<notin> set a \<Longrightarrow> split_str c (a @ c # b) = a # split_str c b"
  by (induction a) (auto split: list.splits)

lemma split_str_in: "c \<in> set s \<Longrightarrow> \<exists>a b bs. split_str c s = a # b # bs"
proof (induction s)
  case Nil
  then show ?case by simp
next
  case (Cons x xs)
  show ?case
  proof (cases "x = c")
    case True
    obtain p ps where "split_str c xs = p # ps"
      using split_str_not_Nil [of c xs] by (cases "split_str c xs") auto
    with True show ?thesis by simp
  next
    case False
    with Cons obtain a b bs where "split_str c xs = a # b # bs" by auto
    with False show ?thesis by simp
  qed
qed

lemma split_str_single: "split_str c s = [a] \<Longrightarrow> c \<notin> set s \<and> a = s"
proof -
  assume h: "split_str c s = [a]"
  have "c \<notin> set s" using split_str_in [of c s] h by auto
  then show ?thesis using h by (simp add: split_str_notin)
qed


lemma isDecDigit_not_ws: "isDecDigit c \<Longrightarrow> \<not> isWhiteSpace c"
  by (auto simp: isDecDigit_def isWhiteSpace_def)

lemma isDecDigit_digitVal: "isDecDigit c \<Longrightarrow> digitVal c = of_char c - 48"
  by (simp add: isDecDigit_def digitVal_def)

lemma isDecDigit_radix: "isDecDigit c \<Longrightarrow> isRadixDigit 10 c"
  by (auto simp: isDecDigit_def isRadixDigit_def digitVal_def)

lemma isDecDigit_not_special:
  "isDecDigit c \<Longrightarrow> c \<noteq> CHR ''-'' \<and> c \<noteq> CHR ''+'' \<and> c \<noteq> CHR ''x'' \<and> c \<noteq> CHR ''X'' \<and> c \<noteq> CHR '',''"
  by (auto simp: isDecDigit_def)

lemma foldl_digits:
  "list_all isDecDigit s \<Longrightarrow>
   foldl (\<lambda>a c. a * 10 + digitVal c) v s = foldl (\<lambda>a c. a * 10 + (of_char c - 48)) v s"
  by (induction s arbitrary: v) (simp_all add: isDecDigit_digitVal)

lemma takeWhile_digits: "list_all isDecDigit s \<Longrightarrow> takeWhile (isRadixDigit 10) s = s"
  by (induction s) (simp_all add: isDecDigit_radix)

lemma decimal_no_hex:
  assumes "list_all isDecDigit s"
  shows "take 2 s \<noteq> ''0x'' \<and> take 2 s \<noteq> ''0X''"
proof (cases s)
  case Nil
  then show ?thesis by simp
next
  case (Cons c cs)
  show ?thesis
  proof (cases cs)
    case Nil
    with Cons show ?thesis by simp
  next
    case (Cons d ds)
    with assms \<open>s = c # cs\<close> have "isDecDigit d" by simp
    then have "d \<noteq> CHR ''x'' \<and> d \<noteq> CHR ''X''" by (simp add: isDecDigit_not_special)
    with Cons \<open>s = c # cs\<close> show ?thesis by simp
  qed
qed

lemma parseInt_decimal:
  assumes "isDecimal s"
  shows "parseInt s = Some (int (decValue s))"
proof -
  from assms obtain c cs where s: "s = c # cs" and c: "isDecDigit c" and all: "list_all isDecDigit s"
    by (cases s) (auto simp: isDecimal_def)
  have ws: "dropWhile isWhiteSpace s = s"
    using s c by (simp add: isDecDigit_not_ws)
  have sg: "hd s \<noteq> CHR ''-'' \<and> hd s \<noteq> CHR ''+''"
    using s c by (simp add: isDecDigit_not_special)
  have hx: "take 2 s \<noteq> ''0x'' \<and> take 2 s \<noteq> ''0X''"
    using all by (rule decimal_no_hex)
  have tw: "takeWhile (isRadixDigit 10) s = s"
    using all by (rule takeWhile_digits)
  have ne: "s \<noteq> []" using s by simp
  show ?thesis
    unfolding parseInt_def Let_def ws
    using sg hx ne by (simp add: tw foldl_digits [OF all] decValue_def)
qed

lemma filter_upto_all:
  "1 \<le> a \<Longrightarrow> b \<le> t \<Longrightarrow> filter (\<lambda>j. 1 \<le> j \<and> j \<le> t) [a..b] = [a..b]"
  by (rule filter_True) auto

lemma parsePart_single:
  assumes sp: "split_str CHR ''-'' tok = [a]"
    and d: "isDecimal (trim a)" and lo: "1 \<le> decValue (trim a)"
    and hi: "int (decValue (trim a)) \<le> t"
  shows "parsePart t [] tok = [int (decValue (trim a)) - 1]"
proof -
  from split_str_single [OF sp] have nin: "CHR ''-'' \<notin> set tok" and eq: "a = tok" by auto
  have "parseInt (trim tok) = Some (int (decValue (trim tok)))"
    using d eq by (simp add: parseInt_decimal)
  then show ?thesis using nin lo hi eq by (simp add: parsePart_def)
qed

lemma parsePart_pair:
  assumes sp: "split_str CHR ''-'' tok = [a, b]"
    and da: "isDecimal (trim a)" and db: "isDecimal (trim b)"
    and lo: "1 \<le> decValue (trim a)" and hi: "int (decValue (trim b)) \<le> t"
  shows "parsePart t [] tok = map (\<lambda>p. p - 1) [int (decValue (trim a)) .. int (decValue (trim b))]"
proof -
  have mem: "CHR ''-'' \<in> set tok"
  proof (rule ccontr)
    assume "CHR ''-'' \<notin> set tok"
    then have "split_str CHR ''-'' tok = [tok]" by (rule split_str_notin)
    with sp show False by simp
  qed
  have pa: "parseInt (trim a) = Some (int (decValue (trim a)))" using da by (rule parseInt_decimal)
  have pb: "parseInt (trim b) = Some (int (decValue (trim b)))" using db by (rule parseInt_decimal)
  have "parsePart t [] tok = range_loop (int (decValue (trim a))) (int (decValue (trim b))) t []"
    using mem by (simp add: parsePart_def sp pa pb)
  also have "\<dots> = map (\<lambda>p. p - 1) [int (decValue (trim a)) .. int (decValue (trim b))]"
    using lo hi by (simp add: range_loop_eq filter_upto_all)
  finally show ?thesis .
qed

lemma parsePart_valid:
  assumes "validToken t tok"
  shows "parsePart t [] tok = map (\<lambda>p. p - 1) (tokenPages tok)"
  using assms
  by (auto simp: validToken_def tokenPages_def parsePart_single parsePart_pair
      split: list.splits)

lemma tokenPages_valid:
  assumes "validToken t tok"
  shows "tokenPages tok \<noteq> [] \<and> list_all (\<lambda>p. 1 \<le> p \<and> p \<le> t) (tokenPages tok)"
  using assms
  by (auto simp: validToken_def tokenPages_def list_all_iff split: list.splits)

lemma parsePageRange_valid:
  assumes "validExpression t expr"
  shows "parsePageRange expr t = map (\<lambda>p. p - 1) (expressionPages expr)"
proof -
  have "map (parsePart t []) (split_str CHR '','' expr)
        = map (\<lambda>tok. map (\<lambda>p. p - 1) (tokenPages tok)) (split_str CHR '','' expr)"
    using assms by (auto simp: validExpression_def list_all_iff parsePart_valid)
  then have "parsePageRange expr t
             = concat (map (\<lambda>tok. map (\<lambda>p. p - 1) (tokenPages tok)) (split_str CHR '','' expr))"
    by (simp only: parsePageRange_concat)
  also have "\<dots> = map (\<lambda>p. p - 1) (expressionPages expr)"
    by (simp add: expressionPages_def map_concat comp_def)
  finally show ?thesis .
qed

lemma expressionPages_valid:
  assumes "validExpression t expr"
  shows "expressionPages expr \<noteq> [] \<and> list_all (\<lambda>p. 1 \<le> p \<and> p \<le> t) (expressionPages expr)"
proof -
  obtain tok toks where sp: "split_str CHR '','' expr = tok # toks"
    using split_str_not_Nil [of "CHR '',''" expr] by (cases "split_str CHR '','' expr") auto
  have all: "\<forall>k \<in> set (split_str CHR '','' expr). validToken t k"
    using assms by (simp add: validExpression_def list_all_iff)
  then have "validToken t tok" using sp by simp
  then have "tokenPages tok \<noteq> []" using tokenPages_valid by blast
  then have ne: "expressionPages expr \<noteq> []" by (simp add: expressionPages_def sp)
  have "list_all (\<lambda>p. 1 \<le> p \<and> p \<le> t) (expressionPages expr)"
    using all tokenPages_valid by (auto simp: expressionPages_def list_all_iff)
  with ne show ?thesis by simp
qed

subsection \<open>What the resolver returns\<close>

text \<open>
  Claim C3, as amended. For every valid expression the resolver returns the 0-based
  indices of the pages the expression names, that is each page number less one: the
  result is not empty, every index lies in \<open>[0, totalPages - 1]\<close> (every page number in
  \<open>[1, totalPages]\<close>), the tokens are expanded from left to right, a range in ascending
  order, and a page that is named twice appears twice. Resolving \<open>3-9\<close> in a document of 20
  pages gives the indices \<open>2, ..., 8\<close> of the pages 3 to 9.
\<close>

theorem resolve_valid_expression:
  assumes "validExpression totalPages expr"
  shows "parsePageRange expr totalPages = map (\<lambda>p. p - 1) (expressionPages expr)
       \<and> parsePageRange expr totalPages \<noteq> []
       \<and> list_all (\<lambda>i. 0 \<le> i \<and> i < totalPages) (parsePageRange expr totalPages)
       \<and> list_all (\<lambda>p. 1 \<le> p \<and> p \<le> totalPages) (expressionPages expr)
       \<and> parsePageRange ''3-9'' 20 = [2, 3, 4, 5, 6, 7, 8]"
proof -
  have eq: "parsePageRange expr totalPages = map (\<lambda>p. p - 1) (expressionPages expr)"
    using assms by (rule parsePageRange_valid)
  have ne: "expressionPages expr \<noteq> []"
    and rg: "list_all (\<lambda>p. 1 \<le> p \<and> p \<le> totalPages) (expressionPages expr)"
    using expressionPages_valid [OF assms] by simp_all
  have "list_all (\<lambda>i. 0 \<le> i \<and> i < totalPages) (map (\<lambda>p. p - 1) (expressionPages expr))"
    using rg by (auto simp: list_all_iff)
  moreover have "parsePageRange ''3-9'' 20 = [2, 3, 4, 5, 6, 7, 8]"
    by code_simp
  ultimately show ?thesis using eq ne rg by simp
qed

theorem resolve_valid_expression_witness:
  "validExpression 20 '' 2 - 4 ,9,3,9''
   \<and> expressionPages '' 2 - 4 ,9,3,9'' = [2, 3, 4, 9, 3, 9]
   \<and> parsePageRange '' 2 - 4 ,9,3,9'' 20 = [1, 2, 3, 8, 2, 8]"
proof -
  have v: "validExpression 20 '' 2 - 4 ,9,3,9''" by code_simp
  have e: "expressionPages '' 2 - 4 ,9,3,9'' = [2, 3, 4, 9, 3, 9]" by code_simp
  from resolve_valid_expression [OF v] v e show ?thesis by simp
qed

text \<open>
  Claim C3 as it is written fails: the resolver converts to 0-based indices, so the result
  for \<open>3-9\<close> is not \<open>3, ..., 9\<close>, and the index 0 of page 1 lies outside \<open>[1, totalPages]\<close>.
\<close>

theorem resolve_one_based_counterexample:
  "parsePageRange ''3-9'' 20 = [2, 3, 4, 5, 6, 7, 8]
   \<and> parsePageRange ''3-9'' 20 \<noteq> [3, 4, 5, 6, 7, 8, 9]
   \<and> \<not> list_all (\<lambda>p. 1 \<le> p \<and> p \<le> 1) (parsePageRange ''1'' 1)"
  by code_simp

text \<open>
  Claim C2 at its failing inputs. A page number outside the document does not make the
  resolver fail: the number is left out and the pages that remain are returned, so
  \<open>0\<close> and \<open>25\<close> in a document of 20 pages resolve to nothing, \<open>0,5,25\<close> to page 5 alone
  and \<open>18-25\<close> to the pages 18 to 20; a split by \<open>0,5,25\<close> succeeds with a document of one page.
\<close>

theorem resolve_out_of_range_dropped:
  "parsePageRange ''0'' 20 = [] \<and> parsePageRange ''25'' 20 = []
   \<and> parsePageRange ''0,5,25'' 20 = [4] \<and> parsePageRange ''18-25'' 20 = [17, 18, 19]
   \<and> fst (splitPDF [''in.pdf'' \<mapsto> doc_with_pages 20] ''in.pdf'' ''0,5,25'' ''out.pdf'' 0)
       = Inr \<lparr>res_success = True, res_path = ''out.pdf'', res_pages = 1\<rparr>"
  by code_simp

text \<open>
  Claim C9 at its failing input. The empty expression does not make the resolver fail: for
  every page count it resolves to the empty sequence.
\<close>

theorem resolve_empty_expression: "parsePageRange '''' totalPages = []"
  by (simp add: parsePageRange_def parsePart_def parseInt_def trim_def)

section \<open>Properties of the engine\<close>

subsection \<open>The codec\<close>

lemma pageList_load [simp]: "pageList (load now pdf) = pageList pdf"
  by (simp add: load_def updateInfoDict_def)

lemma pageList_create [simp]: "pageList (create now) = []"
  by (simp add: create_def updateInfoDict_def emptyDocument_def)

lemma getPageCount_load [simp]: "getPageCount (load now pdf) = getPageCount pdf"
  by (simp add: getPageCount_def)

lemma save_pages: "pageList pdf \<noteq> [] \<Longrightarrow> save pdf = pdf"
  by (simp add: save_def getPageCount_def)

lemma save_no_pages: "pageList pdf = [] \<Longrightarrow> save pdf = pdf\<lparr>pageList := [BlankPage]\<rparr>"
  by (simp add: save_def getPageCount_def addPages_def)

lemma pageList_save:
  "pageList (save pdf) = (if pageList pdf = [] then [BlankPage] else pageList pdf)"
  by (simp add: save_pages save_no_pages)

subsection \<open>Merge\<close>

lemma copyPages_all: "copyPages pdf (map int [0 ..< length (pageList pdf)]) = Inr (pageList pdf)"
proof -
  have "map (\<lambda>i. pageList pdf ! nat i) (map int [0 ..< length (pageList pdf)]) = pageList pdf"
    by (simp add: comp_def map_nth)
  moreover have "list_all (\<lambda>i. 0 \<le> i \<and> i < int (length (pageList pdf))) (map int [0 ..< length (pageList pdf)])"
    by (simp add: list_all_iff)
  ultimately show ?thesis by (simp add: copyPages_def)
qed

lemma copyPages_load_all:
  "copyPages (load now pdf) (map int [0 ..< length (pageList pdf)]) = Inr (pageList pdf)"
  using copyPages_all [of "load now pdf"] by simp

lemma merge_loop_ok:
  "list_all (\<lambda>p. fs p \<noteq> None) filePaths \<Longrightarrow>
   merge_loop fs now filePaths acc =
     Inr (acc\<lparr>pageList := pageList acc @ concat (map (\<lambda>p. pageList (the (fs p))) filePaths)\<rparr>)"
proof (induction filePaths arbitrary: acc)
  case Nil
  then show ?case by simp
next
  case (Cons p ps)
  then obtain pdf where p: "fs p = Some pdf" by auto
  from Cons.prems have rest: "list_all (\<lambda>p. fs p \<noteq> None) ps" by simp
  show ?case
    by (simp add: p copyPages_load_all Cons.IH [OF rest] addPages_def)
qed

lemma merge_loop_missing:
  "\<not> list_all (\<lambda>p. fs p \<noteq> None) filePaths \<Longrightarrow>
   merge_loop fs now filePaths acc
     = Inl (FileNotFound (hd (dropWhile (\<lambda>p. fs p \<noteq> None) filePaths)))"
proof (induction filePaths arbitrary: acc)
  case Nil
  then show ?case by simp
next
  case (Cons p ps)
  show ?case
  proof (cases "fs p")
    case None
    then show ?thesis by simp
  next
    case (Some pdf)
    with Cons.prems have "\<not> list_all (\<lambda>p. fs p \<noteq> None) ps" by simp
    from Cons.IH [OF this] Some show ?thesis by (simp add: copyPages_load_all)
  qed
qed

lemma first_missing:
  "\<not> list_all (\<lambda>p. fs p \<noteq> None) filePaths \<Longrightarrow>
   hd (dropWhile (\<lambda>p. fs p \<noteq> None) filePaths) \<in> set filePaths \<and>
   fs (hd (dropWhile (\<lambda>p. fs p \<noteq> None) filePaths)) = None"
  by (induction filePaths) auto

text \<open>
  Claim C7. \<open>mergePDFs\<close> fails with the error of the empty source set exactly when the
  list of paths is empty; when some listed path holds no file it fails with the
  file-not-found error that names the first such path; otherwise it succeeds. Whenever
  it fails, storage is as it was before the call: nothing has been written.
\<close>

theorem mergePDFs_failures:
  "(fst (mergePDFs fs filePaths outputPath now) = Inl NoFilesProvided \<longleftrightarrow> filePaths = [])
   \<and> (filePaths \<noteq> [] \<and> \<not> list_all (\<lambda>p. fs p \<noteq> None) filePaths \<longrightarrow>
        fst (mergePDFs fs filePaths outputPath now)
          = Inl (FileNotFound (hd (dropWhile (\<lambda>p. fs p \<noteq> None) filePaths)))
        \<and> hd (dropWhile (\<lambda>p. fs p \<noteq> None) filePaths) \<in> set filePaths
        \<and> fs (hd (dropWhile (\<lambda>p. fs p \<noteq> None) filePaths)) = None)
   \<and> (filePaths \<noteq> [] \<and> list_all (\<lambda>p. fs p \<noteq> None) filePaths \<longrightarrow>
        (\<exists>r. fst (mergePDFs fs filePaths outputPath now) = Inr r))
   \<and> (\<forall>err. fst (mergePDFs fs filePaths outputPath now) = Inl err \<longrightarrow>
        snd (mergePDFs fs filePaths outputPath now) = fs)"
proof (cases "filePaths = []")
  case True
  then show ?thesis by (simp add: mergePDFs_def)
next
  case ne: False
  show ?thesis
  proof (cases "list_all (\<lambda>p. fs p \<noteq> None) filePaths")
    case True
    from merge_loop_ok [OF True, of now "create now"] ne show ?thesis
      using True by (simp add: mergePDFs_def Let_def)
  next
    case False
    from merge_loop_missing [OF False, of now "create now"] first_missing [OF False] ne False
    show ?thesis by (simp add: mergePDFs_def)
  qed
qed

theorem mergePDFs_failures_witness:
  "fst (mergePDFs [''a.pdf'' \<mapsto> doc_with_pages 2] [''a.pdf'', ''missing.pdf''] ''out.pdf'' 0)
     = Inl (FileNotFound ''missing.pdf'')
   \<and> snd (mergePDFs [''a.pdf'' \<mapsto> doc_with_pages 2] [''a.pdf'', ''missing.pdf''] ''out.pdf'' 0)
     = [''a.pdf'' \<mapsto> doc_with_pages 2]
   \<and> fst (mergePDFs [''a.pdf'' \<mapsto> doc_with_pages 2] [] ''out.pdf'' 0) = Inl NoFilesProvided
   \<and> snd (mergePDFs [''a.pdf'' \<mapsto> doc_with_pages 2] [] ''out.pdf'' 0)
     = [''a.pdf'' \<mapsto> doc_with_pages 2]"
proof -
  let ?fs = "[''a.pdf'' \<mapsto> doc_with_pages 2]"
  have h: "[''a.pdf'', ''missing.pdf''] \<noteq> [] \<and> \<not> list_all (\<lambda>p. ?fs p \<noteq> None) [''a.pdf'', ''missing.pdf'']"
    by simp
  have d: "hd (dropWhile (\<lambda>p. ?fs p \<noteq> None) [''a.pdf'', ''missing.pdf'']) = ''missing.pdf''"
    by simp
  from mergePDFs_failures [of ?fs "[''a.pdf'', ''missing.pdf'']" "''out.pdf''" 0]
       mergePDFs_failures [of ?fs "[]" "''out.pdf''" 0] h d
  show ?thesis by simp
qed

subsection \<open>Merge followed by split\<close>

lemma isDecDigit_char_of: "(d :: nat) < 10 \<Longrightarrow> isDecDigit (char_of (48 + d))"
  by (simp add: isDecDigit_def)

lemma showNat_digits: "list_all isDecDigit (showNat n)"
proof (induction n rule: showNat.induct)
  case (1 n)
  show ?case
  proof (cases "n < 10")
    case True
    then show ?thesis by (subst showNat.simps) (simp add: isDecDigit_char_of)
  next
    case False
    with 1 show ?thesis by (subst showNat.simps) (simp add: isDecDigit_char_of)
  qed
qed

lemma showNat_not_Nil: "showNat n \<noteq> []"
  by (subst showNat.simps) simp

lemma isDecimal_showNat: "isDecimal (showNat n)"
  by (simp add: isDecimal_def showNat_digits showNat_not_Nil)

lemma decValue_snoc: "decValue (s @ [c]) = decValue s * 10 + (of_char c - 48)"
  by (simp add: decValue_def)

lemma decValue_showNat: "decValue (showNat n) = n"
proof (induction n rule: showNat.induct)
  case (1 n)
  show ?case
  proof (cases "n < 10")
    case True
    then show ?thesis by (subst showNat.simps) (simp add: decValue_def)
  next
    case False
    then have "decValue (showNat n) = decValue (showNat (n div 10)) * 10 + n mod 10"
      by (subst showNat.simps) (simp add: decValue_snoc)
    with False 1 show ?thesis by simp
  qed
qed

lemma trim_no_ws: "list_all (\<lambda>c. \<not> isWhiteSpace c) s \<Longrightarrow> trim s = s"
proof -
  assume a: "list_all (\<lambda>c. \<not> isWhiteSpace c) s"
  have d: "\<And>xs. list_all (\<lambda>c. \<not> isWhiteSpace c) xs \<Longrightarrow> dropWhile isWhiteSpace xs = xs"
    by (case_tac xs) simp_all
  from a have "list_all (\<lambda>c. \<not> isWhiteSpace c) (rev s)" by (simp add: list_all_iff)
  then show ?thesis using a by (simp add: trim_def d)
qed

lemma digits_no_ws: "list_all isDecDigit s \<Longrightarrow> list_all (\<lambda>c. \<not> isWhiteSpace c) s"
  by (auto simp: list_all_iff isDecDigit_not_ws)

lemma digits_no_sep:
  "list_all isDecDigit s \<Longrightarrow> CHR ''-'' \<notin> set s \<and> CHR '','' \<notin> set s"
  by (auto simp: list_all_iff dest: isDecDigit_not_special)

lemma upto_shift: "map (\<lambda>j. j - 1) [1..int n] = map int [0 ..< n]"
proof (induction n)
  case 0
  then show ?case by simp
next
  case (Suc n)
  have "[1..int (Suc n)] = [1..int n] @ [int n + 1]"
    by (simp add: upto_rec2 add.commute)
  with Suc show ?case by simp
qed

lemma parsePageRange_first_pages:
  assumes "int n \<le> t"
  shows "parsePageRange (''1-'' @ showNat n) t = map int [0 ..< n]"
proof -
  let ?e = "''1-'' @ showNat n"
  have dg: "list_all isDecDigit (showNat n)" by (rule showNat_digits)
  have nocomma: "CHR '','' \<notin> set ?e" using digits_no_sep [OF dg] by simp
  have hy: "CHR ''-'' \<in> set ?e" by simp
  have "split_str CHR ''-'' (''1'' @ CHR ''-'' # showNat n) = ''1'' # split_str CHR ''-'' (showNat n)"
    by (rule split_str_append) simp
  moreover have sn: "split_str CHR ''-'' (showNat n) = [showNat n]"
    using digits_no_sep [OF dg] by (simp add: split_str_notin)
  ultimately have sp: "split_str CHR ''-'' ?e = [''1'', showNat n]"
    by simp
  have t1: "parseInt (trim ''1'') = Some 1" by code_simp
  have "trim (showNat n) = showNat n" using dg by (simp add: trim_no_ws digits_no_ws)
  then have t2: "parseInt (trim (showNat n)) = Some (int n)"
    by (simp add: parseInt_decimal isDecimal_showNat decValue_showNat)
  have "parsePart t [] ?e = range_loop 1 (int n) t []"
    using hy by (simp add: parsePart_def sn t1 t2)
  also have "\<dots> = map (\<lambda>j. j - 1) [1..int n]"
    using assms by (simp add: range_loop_eq filter_upto_all)
  also have "\<dots> = map int [0 ..< n]" by (rule upto_shift)
  finally have pp: "parsePart t [] ?e = map int [0 ..< n]" .
  have "split_str CHR '','' ?e = [?e]" using nocomma by (rule split_str_notin)
  then have "parsePageRange ?e t = concat (map (parsePart t []) [?e])"
    by (simp only: parsePageRange_concat)
  then show ?thesis using pp by simp
qed

lemma copyPages_prefix:
  assumes "n \<le> length (pageList pdf)"
  shows "copyPages pdf (map int [0 ..< n]) = Inr (take n (pageList pdf))"
proof -
  have "map (\<lambda>i. pageList pdf ! nat i) (map int [0 ..< n]) = take n (pageList pdf)"
    using assms by (intro nth_equalityI) simp_all
  moreover have "list_all (\<lambda>i. 0 \<le> i \<and> i < int (length (pageList pdf))) (map int [0 ..< n])"
    using assms by (auto simp: list_all_iff)
  ultimately show ?thesis by (simp add: copyPages_def)
qed

text \<open>
  Claim C6, as amended. For stored documents \<open>A\<close> and \<open>B\<close>, \<open>A\<close> with at least one page,
  merging them in this order and then splitting the merged file by the expression \<open>1-n\<close>,
  with \<open>n\<close> the page count of \<open>A\<close> in decimal, succeeds both times and writes a document
  whose page count is that of \<open>A\<close>; its pages are the pages of \<open>A\<close>.
\<close>

theorem merge_then_split_roundtrip:
  assumes A: "fs pathA = Some A" and B: "fs pathB = Some B"
    and pages: "pageList A \<noteq> []"
  shows "\<exists>r1 r2 merged part.
           mergePDFs fs [pathA, pathB] mergedPath t1 = (Inr r1, fs(mergedPath \<mapsto> merged))
         \<and> pageList merged = pageList A @ pageList B
         \<and> splitPDF (fs(mergedPath \<mapsto> merged)) mergedPath
               (''1-'' @ showNat (getPageCount A)) outputPath t2
             = (Inr r2, (fs(mergedPath \<mapsto> merged))(outputPath \<mapsto> part))
         \<and> getPageCount part = getPageCount A
         \<and> res_pages r2 = getPageCount A
         \<and> pageList part = pageList A"
proof -
  let ?n = "getPageCount A"
  let ?merged = "(create t1)\<lparr>pageList := pageList A @ pageList B,
                         Creator := Some ''PDF Utilities MCP'', Producer := Some ''pdf-lib'',
                         ModDate := Some t1\<rparr>"
  have ex: "list_all (\<lambda>p. fs p \<noteq> None) [pathA, pathB]" using A B by simp
  have ml: "merge_loop fs t1 [pathA, pathB] (create t1)
              = Inr ((create t1)\<lparr>pageList := pageList A @ pageList B\<rparr>)"
    using merge_loop_ok [OF ex, of t1 "create t1"] A B by simp
  have sm: "save ?merged = ?merged" using pages by (simp add: save_pages)
  have m: "mergePDFs fs [pathA, pathB] mergedPath t1
             = (Inr \<lparr>res_success = True, res_path = mergedPath, res_pages = getPageCount ?merged\<rparr>,
                fs(mergedPath \<mapsto> ?merged))"
    using sm by (simp add: mergePDFs_def ml Let_def del: merge_loop.simps)
  have pl: "pageList ?merged = pageList A @ pageList B" by simp
  have cnt: "int ?n \<le> int (getPageCount (load t2 ?merged))" by (simp add: getPageCount_def)
  have idx: "parsePageRange (''1-'' @ showNat ?n) (int (getPageCount (load t2 ?merged)))
               = map int [0 ..< ?n]"
    using cnt by (rule parsePageRange_first_pages)
  have "?n \<le> length (pageList (load t2 ?merged))" by (simp add: getPageCount_def)
  then have "copyPages (load t2 ?merged) (map int [0 ..< ?n])
               = Inr (take ?n (pageList (load t2 ?merged)))"
    by (rule copyPages_prefix)
  then have cp: "copyPages (load t2 ?merged) (map int [0 ..< ?n]) = Inr (pageList A)"
    by (simp add: getPageCount_def)
  let ?part = "(addPages (create t2) (pageList A))\<lparr>Creator := Some ''PDF Utilities MCP'',
                   Producer := Some ''pdf-lib'', CreationDate := Some t2\<rparr>"
  have pp: "pageList ?part = pageList A" by (simp add: addPages_def)
  then have sp: "save ?part = ?part" using pages by (simp add: save_pages)
  have s: "splitPDF (fs(mergedPath \<mapsto> ?merged)) mergedPath (''1-'' @ showNat ?n) outputPath t2
             = (Inr \<lparr>res_success = True, res_path = outputPath, res_pages = getPageCount ?part\<rparr>,
                (fs(mergedPath \<mapsto> ?merged))(outputPath \<mapsto> ?part))"
    by (simp only: splitPDF_def fun_upd_same option.case idx cp sum.case Let_def sp)
  have pc: "getPageCount ?part = ?n" using pp by (simp add: getPageCount_def)
  from m pl s pc pp show ?thesis
    by (intro exI [of _ "_ :: file_result"] exI [of _ ?merged] exI [of _ ?part]) auto
qed

theorem merge_then_split_roundtrip_witness:
  "[''a.pdf'' \<mapsto> doc_with_pages 2, ''b.pdf'' \<mapsto> doc_with_pages 3] ''a.pdf'' = Some (doc_with_pages 2)
   \<and> [''a.pdf'' \<mapsto> doc_with_pages 2, ''b.pdf'' \<mapsto> doc_with_pages 3] ''b.pdf'' = Some (doc_with_pages 3)
   \<and> pageList (doc_with_pages 2) \<noteq> []
   \<and> (\<exists>r1 r2 merged part.
         mergePDFs [''a.pdf'' \<mapsto> doc_with_pages 2, ''b.pdf'' \<mapsto> doc_with_pages 3]
             [''a.pdf'', ''b.pdf''] ''m.pdf'' 1
           = (Inr r1, [''a.pdf'' \<mapsto> doc_with_pages 2, ''b.pdf'' \<mapsto> doc_with_pages 3,
                       ''m.pdf'' \<mapsto> merged])
       \<and> splitPDF [''a.pdf'' \<mapsto> doc_with_pages 2, ''b.pdf'' \<mapsto> doc_with_pages 3,
                    ''m.pdf'' \<mapsto> merged] ''m.pdf'' ''1-2'' ''o.pdf'' 2
           = (Inr r2, [''a.pdf'' \<mapsto> doc_with_pages 2, ''b.pdf'' \<mapsto> doc_with_pages 3,
                       ''m.pdf'' \<mapsto> merged, ''o.pdf'' \<mapsto> part])
       \<and> getPageCount part = 2 \<and> res_pages r2 = 2)"
proof -
  let ?fs = "[''a.pdf'' \<mapsto> doc_with_pages 2, ''b.pdf'' \<mapsto> doc_with_pages 3]"
  have a: "?fs ''a.pdf'' = Some (doc_with_pages 2)" by simp
  have b: "?fs ''b.pdf'' = Some (doc_with_pages 3)" by simp
  have p: "pageList (doc_with_pages 2) \<noteq> []" by (simp add: doc_with_pages_def)
  have n: "getPageCount (doc_with_pages 2) = 2" by (simp add: getPageCount_def doc_with_pages_def)
  have s: "''1-'' @ showNat 2 = ''1-2''" by code_simp
  from merge_then_split_roundtrip [OF a b p, of "''m.pdf''" 1 "''o.pdf''" 2]
  obtain r1 r2 merged part where
    "mergePDFs ?fs [''a.pdf'', ''b.pdf''] ''m.pdf'' 1 = (Inr r1, ?fs(''m.pdf'' \<mapsto> merged))"
    "splitPDF (?fs(''m.pdf'' \<mapsto> merged)) ''m.pdf'' (''1-'' @ showNat (getPageCount (doc_with_pages 2))) ''o.pdf'' 2
       = (Inr r2, (?fs(''m.pdf'' \<mapsto> merged))(''o.pdf'' \<mapsto> part))"
    "getPageCount part = getPageCount (doc_with_pages 2)"
    "res_pages r2 = getPageCount (doc_with_pages 2)"
    by blast
  then show ?thesis using a b p unfolding n s by blast
qed

text \<open>
  Claim C6 as it is written fails for a document \<open>A\<close> without pages: the expression is
  \<open>1-0\<close>, no page is copied, and the document that is saved gets one blank page, so the
  result has one page where \<open>A\<close> has none.
\<close>

theorem merge_then_split_no_pages_counterexample:
  "getPageCount (doc_with_pages 0) = 0
   \<and> ''1-'' @ showNat (getPageCount (doc_with_pages 0)) = ''1-0''
   \<and> fst (splitPDF
            (snd (mergePDFs [''a.pdf'' \<mapsto> doc_with_pages 0, ''b.pdf'' \<mapsto> doc_with_pages 1]
                    [''a.pdf'', ''b.pdf''] ''m.pdf'' 1))
            ''m.pdf'' (''1-'' @ showNat (getPageCount (doc_with_pages 0))) ''o.pdf'' 2)
       = Inr \<lparr>res_success = True, res_path = ''o.pdf'', res_pages = 1\<rparr>
   \<and> map_option pageList
        (snd (splitPDF
                (snd (mergePDFs [''a.pdf'' \<mapsto> doc_with_pages 0, ''b.pdf'' \<mapsto> doc_with_pages 1]
                        [''a.pdf'', ''b.pdf''] ''m.pdf'' 1))
                ''m.pdf'' (''1-'' @ showNat (getPageCount (doc_with_pages 0))) ''o.pdf'' 2)
           ''o.pdf'')
       = Some [BlankPage]"
  by code_simp

subsection \<open>Page extraction\<close>

lemma copyPages_one:
  "1 \<le> p \<Longrightarrow> p \<le> int (getPageCount pdf) \<Longrightarrow>
   copyPages pdf [p - 1] = Inr [pageList pdf ! nat (p - 1)]"
  by (simp add: copyPages_def getPageCount_def)

lemma save_single_page: "save (addPages (create now) [pg]) = addPages (create now) [pg]"
  by (rule save_pages) (simp add: addPages_def)

lemma extract_loop_invalid_aux:
  assumes v: "valid = (\<lambda>p. 1 \<le> p \<and> p \<le> int (getPageCount pdf))"
  shows "\<not> list_all valid pages \<Longrightarrow>
   extract_loop pdf now dir pre pages files fs =
     (Inl (InvalidPageNumber (hd (dropWhile valid pages))),
      foldl (\<lambda>f p. f(dir @ ''/'' @ pre @ ''_'' @ showInt p @ ''.pdf''
                      \<mapsto> addPages (create now) [pageList pdf ! nat (p - 1)]))
        fs (takeWhile valid pages))"
proof (induction pages arbitrary: files fs)
  case Nil
  then show ?case by simp
next
  case (Cons p ps)
  show ?case
  proof (cases "valid p")
    case True
    then have r: "1 \<le> p" "p \<le> int (getPageCount pdf)" by (simp_all add: v)
    then have c: "copyPages pdf [p - 1] = Inr [pageList pdf ! nat (p - 1)]"
      by (simp add: copyPages_one)
    from r have g: "\<not> (p < 1 \<or> p > int (getPageCount pdf))" by simp
    from True Cons.prems have rest: "\<not> list_all valid ps" by simp
    have "extract_loop pdf now dir pre (p # ps) files fs =
            extract_loop pdf now dir pre ps
              (files @ [dir @ ''/'' @ pre @ ''_'' @ showInt p @ ''.pdf''])
              (fs(dir @ ''/'' @ pre @ ''_'' @ showInt p @ ''.pdf''
                    \<mapsto> addPages (create now) [pageList pdf ! nat (p - 1)]))"
      by (simp only: extract_loop.simps g if_False c sum.case Let_def)
         (simp add: save_single_page)
    then show ?thesis
      using True by (simp only: Cons.IH [OF rest] takeWhile.simps dropWhile.simps if_True foldl.simps)
  next
    case False
    then have g: "p < 1 \<or> p > int (getPageCount pdf)" by (auto simp: v)
    have "extract_loop pdf now dir pre (p # ps) files fs = (Inl (InvalidPageNumber p), fs)"
      by (simp only: extract_loop.simps g if_True)
    then show ?thesis
      using False by (simp only: takeWhile.simps dropWhile.simps if_False foldl.simps list.sel)
  qed
qed

lemmas extract_loop_invalid = extract_loop_invalid_aux [OF refl]

text \<open>
  Claim C1, as amended. When some requested page number lies outside \<open>[1, totalPages]\<close>,
  \<open>extractPages\<close> fails with the invalid-page-number error that names the first such number.
  By then one file has been written for each number that precedes it, and these files stay;
  nothing is written for the offending number or for any number after it.
\<close>

theorem extractPages_invalid_page:
  assumes src: "fs filePath = Some pdfDoc"
    and bad: "\<not> list_all (\<lambda>p. 1 \<le> p \<and> p \<le> int (getPageCount pdfDoc)) pages"
  shows "extractPages fs filePath pages outputDir prefix_opt now =
           (Inl (InvalidPageNumber
                  (hd (dropWhile (\<lambda>p. 1 \<le> p \<and> p \<le> int (getPageCount pdfDoc)) pages))),
            foldl (\<lambda>f p. f(outputDir @ ''/'' @ (case prefix_opt of None \<Rightarrow> ''page'' | Some x \<Rightarrow> x)
                              @ ''_'' @ showInt p @ ''.pdf''
                            \<mapsto> addPages (create now) [pageList pdfDoc ! nat (p - 1)]))
              fs (takeWhile (\<lambda>p. 1 \<le> p \<and> p \<le> int (getPageCount pdfDoc)) pages))
       \<and> hd (dropWhile (\<lambda>p. 1 \<le> p \<and> p \<le> int (getPageCount pdfDoc)) pages) \<in> set pages
       \<and> \<not> (1 \<le> hd (dropWhile (\<lambda>p. 1 \<le> p \<and> p \<le> int (getPageCount pdfDoc)) pages)
            \<and> hd (dropWhile (\<lambda>p. 1 \<le> p \<and> p \<le> int (getPageCount pdfDoc)) pages)
                \<le> int (getPageCount pdfDoc))"
proof -
  let ?valid = "\<lambda>p. 1 \<le> p \<and> p \<le> int (getPageCount pdfDoc)"
  from bad obtain b rest where d: "dropWhile ?valid pages = b # rest"
    by (cases "dropWhile ?valid pages") (auto simp: list_all_iff)
  have m: "b \<in> set pages" using d by (metis list.set_intros(1) set_dropWhileD)
  have nv: "\<not> ?valid b" using d by (metis hd_dropWhile list.sel(1) list.distinct(1))
  have bad': "\<not> list_all (\<lambda>p. 1 \<le> p \<and> p \<le> int (getPageCount (load now pdfDoc))) pages"
    using bad by simp
  show ?thesis
    using m nv extract_loop_invalid [OF bad', of now outputDir]
    by (simp add: extractPages_def src Let_def d)
qed

theorem extractPages_invalid_page_witness:
  "fst (extractPages [''in.pdf'' \<mapsto> doc_with_pages 10] ''in.pdf'' [1, 999] ''out'' None 7)
     = Inl (InvalidPageNumber 999)
   \<and> snd (extractPages [''in.pdf'' \<mapsto> doc_with_pages 10] ''in.pdf'' [1, 999] ''out'' None 7)
     = [''in.pdf'' \<mapsto> doc_with_pages 10, ''out/page_1.pdf'' \<mapsto> addPages (create 7) [Page 0]]"
proof -
  let ?fs = "[''in.pdf'' \<mapsto> doc_with_pages 10]"
  have s: "?fs ''in.pdf'' = Some (doc_with_pages 10)" by simp
  have n: "getPageCount (doc_with_pages 10) = 10"
    by (simp add: getPageCount_def doc_with_pages_def)
  have b: "\<not> list_all (\<lambda>p. 1 \<le> p \<and> p \<le> int (getPageCount (doc_with_pages 10))) [1, 999]"
    by (simp add: n)
  have p0: "pageList (doc_with_pages 10) ! 0 = Page 0"
    by (simp add: doc_with_pages_def upt_rec)
  have sh: "showInt 1 = ''1''" by code_simp
  from extractPages_invalid_page
         [of ?fs "''in.pdf''" "doc_with_pages 10" "[1, 999]" "''out''" None 7] s b
  show ?thesis by (simp add: n p0 sh)
qed

text \<open>
  Claim C1 as it is written fails: for the pages \<open>1, 999\<close> of a document of 10 pages the call
  fails on 999, and the file of page 1, which was not there before, is on storage.
\<close>

theorem extractPages_partial_output_counterexample:
  "fst (extractPages [''in.pdf'' \<mapsto> doc_with_pages 10] ''in.pdf'' [1, 999] ''out'' None 7)
     = Inl (InvalidPageNumber 999)
   \<and> [''in.pdf'' \<mapsto> doc_with_pages 10] ''out/page_1.pdf'' = None
   \<and> snd (extractPages [''in.pdf'' \<mapsto> doc_with_pages 10] ''in.pdf'' [1, 999] ''out'' None 7)
        ''out/page_1.pdf'' = Some (addPages (create 7) [Page 0])"
  by code_simp

subsection \<open>Metadata update\<close>

lemma updatePDFMetadata_stored:
  assumes src: "fs filePath = Some old"
  shows "\<exists>new savePath.
           updatePDFMetadata fs filePath metadata outputPath now
             = (Inr \<lparr>upd_success = True, upd_path = savePath\<rparr>, fs(savePath \<mapsto> new))
         \<and> savePath = (case outputPath of None \<Rightarrow> filePath
                         | Some p \<Rightarrow> if p \<noteq> [] then p else filePath)
         \<and> Title new = (if truthy (u_title metadata) then u_title metadata else Title old)
         \<and> Author new = (if truthy (u_author metadata) then u_author metadata else Author old)
         \<and> Subject new = (if truthy (u_subject metadata) then u_subject metadata else Subject old)
         \<and> Keywords new = (if truthy (u_keywords metadata)
                            then map_option (\<lambda>k. [k]) (u_keywords metadata) else Keywords old)
         \<and> pageList new = (if pageList old = [] then [BlankPage] else pageList old)
         \<and> Producer new = Some pdfLib
         \<and> Creator new = (case Creator old of None \<Rightarrow> Some pdfLib | Some c \<Rightarrow> Some c)
         \<and> CreationDate new = (case CreationDate old of None \<Rightarrow> Some now | Some d \<Rightarrow> Some d)
         \<and> ModDate new = Some now"
proof -
  let ?pdfDoc = "load now old"
  let ?d1 = "if truthy (u_title metadata) then ?pdfDoc\<lparr>Title := u_title metadata\<rparr> else ?pdfDoc"
  let ?d2 = "if truthy (u_author metadata) then ?d1\<lparr>Author := u_author metadata\<rparr> else ?d1"
  let ?d3 = "if truthy (u_subject metadata) then ?d2\<lparr>Subject := u_subject metadata\<rparr> else ?d2"
  let ?d4 = "case u_keywords metadata of None \<Rightarrow> ?d3
             | Some k \<Rightarrow> if k \<noteq> [] then ?d3\<lparr>Keywords := Some [k]\<rparr> else ?d3"
  let ?d5 = "save (?d4\<lparr>ModDate := Some now\<rparr>)"
  let ?savePath = "case outputPath of None \<Rightarrow> filePath | Some p \<Rightarrow> if p \<noteq> [] then p else filePath"
  have run: "updatePDFMetadata fs filePath metadata outputPath now
               = (Inr \<lparr>upd_success = True, upd_path = ?savePath\<rparr>, fs(?savePath \<mapsto> ?d5))"
    by (simp add: updatePDFMetadata_def src Let_def)
  have p4: "pageList ?d4 = pageList old"
    by (simp split: option.splits)
  have t: "Title ?d5 = (if truthy (u_title metadata) then u_title metadata else Title old)"
    by (simp add: save_def addPages_def load_def updateInfoDict_def split: option.splits)
  have a: "Author ?d5 = (if truthy (u_author metadata) then u_author metadata else Author old)"
    by (simp add: save_def addPages_def load_def updateInfoDict_def split: option.splits)
  have s: "Subject ?d5 = (if truthy (u_subject metadata) then u_subject metadata else Subject old)"
    by (simp add: save_def addPages_def load_def updateInfoDict_def split: option.splits)
  have k: "Keywords ?d5 = (if truthy (u_keywords metadata)
                            then map_option (\<lambda>k. [k]) (u_keywords metadata) else Keywords old)"
    by (simp add: save_def addPages_def load_def updateInfoDict_def truthy_def split: option.splits)
  have pl: "pageList ?d5 = (if pageList old = [] then [BlankPage] else pageList old)"
    using p4 by (simp add: pageList_save)
  have pr: "Producer ?d5 = Some pdfLib"
    by (simp add: save_def addPages_def load_def updateInfoDict_def split: option.splits)
  have cr: "Creator ?d5 = (case Creator old of None \<Rightarrow> Some pdfLib | Some c \<Rightarrow> Some c)"
    by (simp add: save_def addPages_def load_def updateInfoDict_def split: option.splits)
  have cd: "CreationDate ?d5 = (case CreationDate old of None \<Rightarrow> Some now | Some d \<Rightarrow> Some d)"
    by (simp add: save_def addPages_def load_def updateInfoDict_def split: option.splits)
  have md: "ModDate ?d5 = Some now"
    by (simp add: save_def addPages_def)
  from run t a s k pl pr cr cd md show ?thesis by blast
qed

text \<open>
  Claim C8, as amended. A metadata write on a stored document succeeds, and in the
  document it writes a descriptive field (title, author, subject, keywords) absent from
  the updates has its prior value, a field is either as before or as the updates give it,
  and a field the updates give with a value that is not empty has that value; with empty
  updates none of the four changes. The modification date is the time of the call. It is
  not the only entry that is refreshed: loading the document overwrites the producer and
  fills in the creator and the creation date where the document has none. The pages are
  as before, and a document without pages is written with one blank page.
\<close>

theorem updatePDFMetadata_frame:
  assumes src: "fs filePath = Some old"
  shows "\<exists>new savePath.
           updatePDFMetadata fs filePath metadata outputPath now
             = (Inr \<lparr>upd_success = True, upd_path = savePath\<rparr>, fs(savePath \<mapsto> new))
         \<and> (u_title metadata = None \<longrightarrow> Title new = Title old)
         \<and> (u_author metadata = None \<longrightarrow> Author new = Author old)
         \<and> (u_subject metadata = None \<longrightarrow> Subject new = Subject old)
         \<and> (u_keywords metadata = None \<longrightarrow> Keywords new = Keywords old)
         \<and> (Title new = Title old \<or> Title new = u_title metadata)
         \<and> (Author new = Author old \<or> Author new = u_author metadata)
         \<and> (Subject new = Subject old \<or> Subject new = u_subject metadata)
         \<and> (Keywords new = Keywords old \<or> Keywords new = map_option (\<lambda>k. [k]) (u_keywords metadata))
         \<and> (truthy (u_title metadata) \<longrightarrow> Title new = u_title metadata)
         \<and> (truthy (u_author metadata) \<longrightarrow> Author new = u_author metadata)
         \<and> (truthy (u_subject metadata) \<longrightarrow> Subject new = u_subject metadata)
         \<and> (truthy (u_keywords metadata) \<longrightarrow> Keywords new = map_option (\<lambda>k. [k]) (u_keywords metadata))
         \<and> (metadata = \<lparr>u_title = None, u_author = None, u_subject = None, u_keywords = None\<rparr>
              \<longrightarrow> Title new = Title old \<and> Author new = Author old
                  \<and> Subject new = Subject old \<and> Keywords new = Keywords old)
         \<and> ModDate new = Some now
         \<and> Producer new = Some pdfLib
         \<and> Creator new = (case Creator old of None \<Rightarrow> Some pdfLib | Some c \<Rightarrow> Some c)
         \<and> CreationDate new = (case CreationDate old of None \<Rightarrow> Some now | Some d \<Rightarrow> Some d)
         \<and> pageList new = (if pageList old = [] then [BlankPage] else pageList old)"
proof -
  from updatePDFMetadata_stored [of fs filePath old metadata outputPath now] src
  obtain new savePath where
    run: "updatePDFMetadata fs filePath metadata outputPath now
            = (Inr \<lparr>upd_success = True, upd_path = savePath\<rparr>, fs(savePath \<mapsto> new))"
    and t: "Title new = (if truthy (u_title metadata) then u_title metadata else Title old)"
    and a: "Author new = (if truthy (u_author metadata) then u_author metadata else Author old)"
    and s: "Subject new = (if truthy (u_subject metadata) then u_subject metadata else Subject old)"
    and k: "Keywords new = (if truthy (u_keywords metadata)
                             then map_option (\<lambda>k. [k]) (u_keywords metadata) else Keywords old)"
    and rest: "pageList new = (if pageList old = [] then [BlankPage] else pageList old)"
      "Producer new = Some pdfLib"
      "Creator new = (case Creator old of None \<Rightarrow> Some pdfLib | Some c \<Rightarrow> Some c)"
      "CreationDate new = (case CreationDate old of None \<Rightarrow> Some now | Some d \<Rightarrow> Some d)"
      "ModDate new = Some now"
    by blast
  have n: "\<not> truthy None" by (simp add: truthy_def)
  have f1: "(u_title metadata = None \<longrightarrow> Title new = Title old)
            \<and> (Title new = Title old \<or> Title new = u_title metadata)
            \<and> (truthy (u_title metadata) \<longrightarrow> Title new = u_title metadata)"
    using t n by auto
  have f2: "(u_author metadata = None \<longrightarrow> Author new = Author old)
            \<and> (Author new = Author old \<or> Author new = u_author metadata)
            \<and> (truthy (u_author metadata) \<longrightarrow> Author new = u_author metadata)"
    using a n by auto
  have f3: "(u_subject metadata = None \<longrightarrow> Subject new = Subject old)
            \<and> (Subject new = Subject old \<or> Subject new = u_subject metadata)
            \<and> (truthy (u_subject metadata) \<longrightarrow> Subject new = u_subject metadata)"
    using s n by auto
  have f4: "(u_keywords metadata = None \<longrightarrow> Keywords new = Keywords old)
            \<and> (Keywords new = Keywords old
                \<or> Keywords new = map_option (\<lambda>k. [k]) (u_keywords metadata))
            \<and> (truthy (u_keywords metadata)
                \<longrightarrow> Keywords new = map_option (\<lambda>k. [k]) (u_keywords metadata))"
    using k n by auto
  have f5: "metadata = \<lparr>u_title = None, u_author = None, u_subject = None, u_keywords = None\<rparr>
              \<longrightarrow> Title new = Title old \<and> Author new = Author old
                  \<and> Subject new = Subject old \<and> Keywords new = Keywords old"
    using f1 f2 f3 f4 by auto
  show ?thesis
    by (intro exI conjI, rule run) (use f1 f2 f3 f4 f5 rest in simp_all)
qed

theorem updatePDFMetadata_frame_witness:
  "[''in.pdf'' \<mapsto> (doc_with_pages 1)\<lparr>Title := Some ''Old'', Author := Some ''Ann''\<rparr>] ''in.pdf''
     = Some ((doc_with_pages 1)\<lparr>Title := Some ''Old'', Author := Some ''Ann''\<rparr>)
   \<and> map_option Title
        (snd (updatePDFMetadata
                [''in.pdf'' \<mapsto> (doc_with_pages 1)\<lparr>Title := Some ''Old'', Author := Some ''Ann''\<rparr>]
                ''in.pdf''
                \<lparr>u_title = None, u_author = None, u_subject = None, u_keywords = None\<rparr> None 5)
           ''in.pdf'')
       = Some (Some ''Old'')
   \<and> map_option Author
        (snd (updatePDFMetadata
                [''in.pdf'' \<mapsto> (doc_with_pages 1)\<lparr>Title := Some ''Old'', Author := Some ''Ann''\<rparr>]
                ''in.pdf''
                \<lparr>u_title = None, u_author = None, u_subject = None, u_keywords = None\<rparr> None 5)
           ''in.pdf'')
       = Some (Some ''Ann'')
   \<and> map_option ModDate
        (snd (updatePDFMetadata
                [''in.pdf'' \<mapsto> (doc_with_pages 1)\<lparr>Title := Some ''Old'', Author := Some ''Ann''\<rparr>]
                ''in.pdf''
                \<lparr>u_title = None, u_author = None, u_subject = None, u_keywords = None\<rparr> None 5)
           ''in.pdf'')
       = Some (Some 5)"
proof -
  let ?old = "(doc_with_pages 1)\<lparr>Title := Some ''Old'', Author := Some ''Ann''\<rparr>"
  let ?fs = "[''in.pdf'' \<mapsto> ?old]"
  let ?none = "\<lparr>u_title = None, u_author = None, u_subject = None, u_keywords = None\<rparr>"
  have s: "?fs ''in.pdf'' = Some ?old" by simp
  from updatePDFMetadata_frame [of ?fs "''in.pdf''" ?old ?none None 5] s
  obtain new savePath where
    r: "updatePDFMetadata ?fs ''in.pdf'' ?none None 5
          = (Inr \<lparr>upd_success = True, upd_path = savePath\<rparr>, ?fs(savePath \<mapsto> new))"
    and t: "Title new = Title ?old" and a: "Author new = Author ?old"
    and m: "ModDate new = Some 5"
    by auto
  have p: "savePath = ''in.pdf''"
    using r by (simp add: updatePDFMetadata_def Let_def)
  have "snd (updatePDFMetadata ?fs ''in.pdf'' ?none None 5) ''in.pdf'' = Some new"
    using r p by simp
  with s t a m show ?thesis by simp
qed

text \<open>
  Claim C8 as it is written fails: a write with empty updates refreshes more than the
  modification date. The producer of the stored document is overwritten, and the creator
  and the creation date, which it did not have, are filled in.
\<close>

theorem updatePDFMetadata_refresh_counterexample:
  "map_option Producer
     ([''in.pdf'' \<mapsto> (doc_with_pages 1)\<lparr>Producer := Some ''Acrobat''\<rparr>] ''in.pdf'')
     = Some (Some ''Acrobat'')
   \<and> map_option Producer
       (snd (updatePDFMetadata
               [''in.pdf'' \<mapsto> (doc_with_pages 1)\<lparr>Producer := Some ''Acrobat''\<rparr>] ''in.pdf''
               \<lparr>u_title = None, u_author = None, u_subject = None, u_keywords = None\<rparr> None 5)
          ''in.pdf'')
     = Some (Some ''pdf-lib (https://github.com/Hopding/pdf-lib)'')
   \<and> map_option Creator
       (snd (updatePDFMetadata
               [''in.pdf'' \<mapsto> (doc_with_pages 1)\<lparr>Producer := Some ''Acrobat''\<rparr>] ''in.pdf''
               \<lparr>u_title = None, u_author = None, u_subject = None, u_keywords = None\<rparr> None 5)
          ''in.pdf'')
     = Some (Some ''pdf-lib (https://github.com/Hopding/pdf-lib)'')
   \<and> map_option CreationDate
       (snd (updatePDFMetadata
               [''in.pdf'' \<mapsto> (doc_with_pages 1)\<lparr>Producer := Some ''Acrobat''\<rparr>] ''in.pdf''
               \<lparr>u_title = None, u_author = None, u_subject = None, u_keywords = None\<rparr> None 5)
          ''in.pdf'')
     = Some (Some 5)"
  by code_simp

text \<open>
  Claim C10. A descriptive field given as the empty string is treated as an absent one: the
  call does what it does with the field left out, the written document keeps the prior
  value of the field, and a title, author or subject that is the empty string after the
  call was the empty string before it.
\<close>

theorem updatePDFMetadata_empty_string_as_absent:
  "updatePDFMetadata fs filePath (metadata\<lparr>u_title := Some ''''\<rparr>) outputPath now
     = updatePDFMetadata fs filePath (metadata\<lparr>u_title := None\<rparr>) outputPath now
   \<and> updatePDFMetadata fs filePath (metadata\<lparr>u_author := Some ''''\<rparr>) outputPath now
     = updatePDFMetadata fs filePath (metadata\<lparr>u_author := None\<rparr>) outputPath now
   \<and> updatePDFMetadata fs filePath (metadata\<lparr>u_subject := Some ''''\<rparr>) outputPath now
     = updatePDFMetadata fs filePath (metadata\<lparr>u_subject := None\<rparr>) outputPath now
   \<and> updatePDFMetadata fs filePath (metadata\<lparr>u_keywords := Some ''''\<rparr>) outputPath now
     = updatePDFMetadata fs filePath (metadata\<lparr>u_keywords := None\<rparr>) outputPath now
   \<and> (\<forall>old. fs filePath = Some old \<longrightarrow>
        (\<exists>new savePath.
           updatePDFMetadata fs filePath metadata outputPath now
             = (Inr \<lparr>upd_success = True, upd_path = savePath\<rparr>, fs(savePath \<mapsto> new))
         \<and> (u_title metadata = Some '''' \<longrightarrow> Title new = Title old)
         \<and> (u_author metadata = Some '''' \<longrightarrow> Author new = Author old)
         \<and> (u_subject metadata = Some '''' \<longrightarrow> Subject new = Subject old)
         \<and> (u_keywords metadata = Some '''' \<longrightarrow> Keywords new = Keywords old)
         \<and> (Title new = Some '''' \<longrightarrow> Title old = Some '''')
         \<and> (Author new = Some '''' \<longrightarrow> Author old = Some '''')
         \<and> (Subject new = Some '''' \<longrightarrow> Subject old = Some '''')))"
proof -
  have e1: "updatePDFMetadata fs filePath (metadata\<lparr>u_title := Some ''''\<rparr>) outputPath now
     = updatePDFMetadata fs filePath (metadata\<lparr>u_title := None\<rparr>) outputPath now"
    by (cases metadata; cases "fs filePath")
       (simp_all add: updatePDFMetadata_def Let_def truthy_def split: option.splits)
  have e2: "updatePDFMetadata fs filePath (metadata\<lparr>u_author := Some ''''\<rparr>) outputPath now
     = updatePDFMetadata fs filePath (metadata\<lparr>u_author := None\<rparr>) outputPath now"
    by (cases metadata; cases "fs filePath")
       (simp_all add: updatePDFMetadata_def Let_def truthy_def split: option.splits)
  have e3: "updatePDFMetadata fs filePath (metadata\<lparr>u_subject := Some ''''\<rparr>) outputPath now
     = updatePDFMetadata fs filePath (metadata\<lparr>u_subject := None\<rparr>) outputPath now"
    by (cases metadata; cases "fs filePath")
       (simp_all add: updatePDFMetadata_def Let_def truthy_def split: option.splits)
  have e4: "updatePDFMetadata fs filePath (metadata\<lparr>u_keywords := Some ''''\<rparr>) outputPath now
     = updatePDFMetadata fs filePath (metadata\<lparr>u_keywords := None\<rparr>) outputPath now"
    by (cases metadata; cases "fs filePath")
       (simp_all add: updatePDFMetadata_def Let_def truthy_def split: option.splits)
  have e5: "\<forall>old. fs filePath = Some old \<longrightarrow>
        (\<exists>new savePath.
           updatePDFMetadata fs filePath metadata outputPath now
             = (Inr \<lparr>upd_success = True, upd_path = savePath\<rparr>, fs(savePath \<mapsto> new))
         \<and> (u_title metadata = Some '''' \<longrightarrow> Title new = Title old)
         \<and> (u_author metadata = Some '''' \<longrightarrow> Author new = Author old)
         \<and> (u_subject metadata = Some '''' \<longrightarrow> Subject new = Subject old)
         \<and> (u_keywords metadata = Some '''' \<longrightarrow> Keywords new = Keywords old)
         \<and> (Title new = Some '''' \<longrightarrow> Title old = Some '''')
         \<and> (Author new = Some '''' \<longrightarrow> Author old = Some '''')
         \<and> (Subject new = Some '''' \<longrightarrow> Subject old = Some ''''))"
  proof (intro allI impI)
    fix old
    assume src: "fs filePath = Some old"
    from updatePDFMetadata_stored [of fs filePath old metadata outputPath now] src
    obtain new savePath where
      run: "updatePDFMetadata fs filePath metadata outputPath now
              = (Inr \<lparr>upd_success = True, upd_path = savePath\<rparr>, fs(savePath \<mapsto> new))"
      and t: "Title new = (if truthy (u_title metadata) then u_title metadata else Title old)"
      and a: "Author new = (if truthy (u_author metadata) then u_author metadata else Author old)"
      and s: "Subject new = (if truthy (u_subject metadata) then u_subject metadata else Subject old)"
      and k: "Keywords new = (if truthy (u_keywords metadata)
                               then map_option (\<lambda>k. [k]) (u_keywords metadata) else Keywords old)"
      by blast
    have n: "\<not> truthy (Some '''')" by (simp add: truthy_def)
    have g1: "(u_title metadata = Some '''' \<longrightarrow> Title new = Title old)
              \<and> (Title new = Some '''' \<longrightarrow> Title old = Some '''')"
      using t n by (auto split: if_splits)
    have g2: "(u_author metadata = Some '''' \<longrightarrow> Author new = Author old)
              \<and> (Author new = Some '''' \<longrightarrow> Author old = Some '''')"
      using a n by (auto split: if_splits)
    have g3: "(u_subject metadata = Some '''' \<longrightarrow> Subject new = Subject old)
              \<and> (Subject new = Some '''' \<longrightarrow> Subject old = Some '''')"
      using s n by (auto split: if_splits)
    have g4: "u_keywords metadata = Some '''' \<longrightarrow> Keywords new = Keywords old"
      using k n by auto
    from run g1 g2 g3 g4
    show "\<exists>new savePath.
           updatePDFMetadata fs filePath metadata outputPath now
             = (Inr \<lparr>upd_success = True, upd_path = savePath\<rparr>, fs(savePath \<mapsto> new))
         \<and> (u_title metadata = Some '''' \<longrightarrow> Title new = Title old)
         \<and> (u_author metadata = Some '''' \<longrightarrow> Author new = Author old)
         \<and> (u_subject metadata = Some '''' \<longrightarrow> Subject new = Subject old)
         \<and> (u_keywords metadata = Some '''' \<longrightarrow> Keywords new = Keywords old)
         \<and> (Title new = Some '''' \<longrightarrow> Title old = Some '''')
         \<and> (Author new = Some '''' \<longrightarrow> Author old = Some '''')
         \<and> (Subject new = Some '''' \<longrightarrow> Subject old = Some '''')"
      by blast
  qed
  from e1 e2 e3 e4 e5 show ?thesis by blast
qed

theorem updatePDFMetadata_empty_string_as_absent_witness:
  "snd (updatePDFMetadata
          [''in.pdf'' \<mapsto> (doc_with_pages 1)\<lparr>Title := Some ''Old''\<rparr>] ''in.pdf''
          \<lparr>u_title = Some '''', u_author = Some ''Bob'', u_subject = None, u_keywords = None\<rparr>
          None 5) ''in.pdf''
     = Some ((doc_with_pages 1)\<lparr>Title := Some ''Old'', Author := Some ''Bob'',
                                 Creator := Some pdfLib, Producer := Some pdfLib,
                                 CreationDate := Some 5, ModDate := Some 5\<rparr>)"
proof -
  let ?fs = "[''in.pdf'' \<mapsto> (doc_with_pages 1)\<lparr>Title := Some ''Old''\<rparr>]"
  let ?m = "\<lparr>u_title = None, u_author = Some ''Bob'', u_subject = None, u_keywords = None\<rparr>"
  from updatePDFMetadata_empty_string_as_absent [of ?fs "''in.pdf''" ?m None 5]
  have "updatePDFMetadata ?fs ''in.pdf'' (?m\<lparr>u_title := Some ''''\<rparr>) None 5
          = updatePDFMetadata ?fs ''in.pdf'' (?m\<lparr>u_title := None\<rparr>) None 5"
    by blast
  then have "updatePDFMetadata ?fs ''in.pdf''
               \<lparr>u_title = Some '''', u_author = Some ''Bob'', u_subject = None, u_keywords = None\<rparr>
               None 5
             = updatePDFMetadata ?fs ''in.pdf'' ?m None 5"
    by simp
  then show ?thesis
    by (simp add: updatePDFMetadata_def Let_def truthy_def load_def updateInfoDict_def
        save_def getPageCount_def doc_with_pages_def emptyDocument_def)
qed

section \<open>Properties of the request handler\<close>




lemma dispatch_cases:
  "dispatch engine params st =
     (case route params of
        Inl err \<Rightarrow> (failure_response (message err), st)
      | Inr call \<Rightarrow>
          (case engine call st of
             (Inl err, st') \<Rightarrow> (failure_response (message err), st')
           | (Inr result, st') \<Rightarrow> (success_response result, st')))"
  by (simp add: dispatch_def try_body_def split: sum.splits prod.splits)




text \<open>
  Claim C5 at its failing input. A call of \<open>merge_pdfs\<close> whose argument record has no field
  \<open>filePaths\<close> is not rejected by the handler: the engine method is called with
  \<^verbatim>\<open>undefined\<close> in the place of the missing field, and the response is whatever the
  outcome of that call is wrapped to.
\<close>

theorem dispatch_missing_required_field:
  "route \<lparr>params_name = ''merge_pdfs'',
          params_arguments = Some [''outputPath'' \<mapsto> JStr ''/tmp/out.pdf'']\<rparr>
     = Inr (MergePDFs JUndefined (JStr ''/tmp/out.pdf''))
   \<and> dispatch engine
        \<lparr>params_name = ''merge_pdfs'',
         params_arguments = Some [''outputPath'' \<mapsto> JStr ''/tmp/out.pdf'']\<rparr> st
     = (case engine (MergePDFs JUndefined (JStr ''/tmp/out.pdf'')) st of
          (Inl err, st') \<Rightarrow> (failure_response (message err), st')
        | (Inr result, st') \<Rightarrow> (success_response result, st'))"
  by (simp add: dispatch_cases route_def field_def)

end
